theory Spec2Isabelle
  imports Complex_Main
begin

section \<open>The Poincare texture of CircleLimit.cpp\<close>

text \<open>
  The development embeds the class \<open>PoincareTexture\<close> of \<open>src/CircleLimit.cpp\<close>: the
  lattice of points (\<open>calcH\<close>), their projection into the disk (\<open>calcP\<close>), the circles
  built from the projected points (\<open>calcC\<close>), the containment count (\<open>countCircles\<close>) and
  the rasteriser (\<open>RenderToTexture\<close>), together with the constructor and
  \<open>increaseResolution\<close>.

  Numbers. A \<open>float\<close> is a \<^typ>\<open>real\<close>. In the construction of the circles (\<open>calcH\<close>,
  \<open>calcP\<close>, \<open>calcC\<close>) the arithmetic is idealised: \<open>cosf\<close>, \<open>sinf\<close>, \<open>sinh\<close>, \<open>cosh\<close>, \<open>sqrtf\<close>
  are the real functions and rounding is not modelled, so an equation proved there is what
  the source computes up to rounding; divisions by zero (\<open>a / 0 = 0\<close> in HOL, an infinity
  or a NaN in C++) are named where they occur. In the rasteriser (\<open>RenderToTexture\<close>,
  \<open>countCircles\<close>, \<open>calculateDistance\<close>) a rounding decides a colour, so there every
  operation is followed by the rounding of its type: binary32 for \<open>float\<close>, binary64 for
  \<open>double\<close>, to nearest with ties to even.
  The C++ type \<open>int\<close> is \<^typ>\<open>int\<close>: the loop counters of the source never leave the range
  of the dimensions they are compared with, and \<open>width += increaseBy\<close> is modelled for the
  executions in which the sum is representable (signed overflow is undefined in C++).
\<close>

type_synonym float = real

type_synonym double = real

subsection \<open>Rounding\<close>

text \<open>
  \<open>round_even\<close> rounds to the nearest integer, a tie to the even one. \<open>round_to p emin\<close>
  rounds to the nearest number with \<open>p + 1\<close> significant bits whose last bit weighs at
  least \<open>2\<close> to the \<open>emin\<close>: binary32 is \<open>p = 23\<close>, \<open>emin = -149\<close> and binary64 is \<open>p = 52\<close>,
  \<open>emin = -1074\<close>, subnormal numbers included. Overflow to an infinity, NaN and the sign
  of zero are not modelled; no value of the rasteriser comes near the largest float.
\<close>

definition round_even :: "real \<Rightarrow> int" where
  "round_even m =
     (let f = \<lfloor>m\<rfloor>
      in if m - of_int f < 1 / 2 then f
         else if 1 / 2 < m - of_int f then f + 1
         else if even f then f else f + 1)"

definition round_to :: "int \<Rightarrow> int \<Rightarrow> real \<Rightarrow> real" where
  "round_to p emin x =
     (if x = 0 then 0
      else (let e = max (\<lfloor>log 2 \<bar>x\<bar>\<rfloor> - p) emin
            in of_int (round_even (x / 2 powr of_int e)) * 2 powr of_int e))"

definition round32 :: "real \<Rightarrow> float" where
  "round32 = round_to 23 (- 149)"

definition round64 :: "real \<Rightarrow> double" where
  "round64 = round_to 52 (- 1074)"

subsection \<open>Vectors\<close>

text \<open>
  Modelled from the spec: the types \<open>vec2\<close>, \<open>vec3\<close>, \<open>vec4\<close> and their operators are
  declared in \<open>framework.h\<close>, which is not among the sources. The spec uses them as
  2-, 3- and 4-component float vectors with componentwise sum, product with a scalar,
  and \<open>normalize(q)\<close>, the vector scaled by the inverse of its Euclidean length.
  The selectors are the components \<open>x\<close>, \<open>y\<close>, \<open>z\<close>, \<open>w\<close> of the source, prefixed by the type.
\<close>

datatype vec2 = vec2 (vec2_x: float) (vec2_y: float)

datatype vec3 = vec3 (vec3_x: float) (vec3_y: float) (vec3_z: float)

datatype vec4 = vec4 (vec4_x: float) (vec4_y: float) (vec4_z: float) (vec4_w: float)

definition vec2_add :: "vec2 \<Rightarrow> vec2 \<Rightarrow> vec2" where
  "vec2_add a b = vec2 (vec2_x a + vec2_x b) (vec2_y a + vec2_y b)"

definition vec2_mul :: "vec2 \<Rightarrow> float \<Rightarrow> vec2" where
  "vec2_mul a s = vec2 (vec2_x a * s) (vec2_y a * s)"

definition vec3_add :: "vec3 \<Rightarrow> vec3 \<Rightarrow> vec3" where
  "vec3_add a b = vec3 (vec3_x a + vec3_x b) (vec3_y a + vec3_y b) (vec3_z a + vec3_z b)"

definition vec3_mul :: "vec3 \<Rightarrow> float \<Rightarrow> vec3" where
  "vec3_mul a s = vec3 (vec3_x a * s) (vec3_y a * s) (vec3_z a * s)"

definition length_vec2 :: "vec2 \<Rightarrow> float" where
  "length_vec2 v = sqrt (vec2_x v * vec2_x v + vec2_y v * vec2_y v)"

definition normalize_vec2 :: "vec2 \<Rightarrow> vec2" where
  "normalize_vec2 v = vec2_mul v (1 / length_vec2 v)"

subsection \<open>The texture object\<close>

text \<open>
  Modelled from the spec: the base class \<open>Texture\<close> and its method \<open>create\<close> live in
  \<open>framework.h\<close>. The spec describes the texture resource as the consumer of the RGBA
  grid, fully replaced (not mutated in place) on each regeneration; the record keeps the
  arguments of the last \<open>create\<close> call.
\<close>

record Texture =
  tex_width :: int
  tex_height :: int
  tex_image :: "vec4 list"

record PoincareTexture = Texture +
  width :: int
  height :: int
  points :: "vec3 list"
  centres :: "vec3 list"
  hyperbolicPoints :: "vec3 list"
  poincarePoints :: "vec2 list"
  circles :: "vec3 list"

definition create :: "int \<Rightarrow> int \<Rightarrow> vec4 list \<Rightarrow> PoincareTexture \<Rightarrow> PoincareTexture" where
  "create w h im this = this\<lparr>tex_width := w, tex_height := h, tex_image := im\<rparr>"

subsection \<open>calcH: the lattice\<close>

definition calculateIv :: "int \<Rightarrow> vec3" where
  "calculateIv i =
     vec3 (cos (real_of_int (i * 40) * pi / 180)) (sin (real_of_int (i * 40) * pi / 180)) 0"

definition calculateIvv :: "vec3 \<Rightarrow> float \<Rightarrow> vec3" where
  "calculateIvv iv dh = vec3_add (vec3_mul (vec3 0 0 1) (sinh dh)) (vec3_mul iv (cosh dh))"

definition calculateP :: "vec3 \<Rightarrow> float \<Rightarrow> vec3" where
  "calculateP ivv dh = vec3_add (vec3_mul (vec3 0 0 1) (cosh dh)) (vec3_mul ivv (sinh dh))"

text \<open>The inner loop \<open>while(dh <= 5.5)\<close> of \<open>calcH\<close>; \<open>dh++\<close> adds one.\<close>

function calcH_dh :: "vec3 \<Rightarrow> float \<Rightarrow> vec3 list \<Rightarrow> vec3 list" where
  "calcH_dh iv dh hps =
     (if dh \<le> 5.5
      then (let ivv = calculateIvv iv dh;
                p = calculateP ivv dh
            in calcH_dh iv (dh + 1) (hps @ [p]))
      else hps)"
  by pat_completeness auto
termination
  by (relation "measure (\<lambda>(iv, dh, hps). nat \<lceil>13 / 2 - dh\<rceil>)") (auto, linarith)

declare calcH_dh.simps [simp del]

text \<open>The outer loop \<open>while(i < 9)\<close> of \<open>calcH\<close>.\<close>

function calcH_i :: "int \<Rightarrow> vec3 list \<Rightarrow> vec3 list" where
  "calcH_i i hps =
     (if i < 9
      then (let iv = calculateIv i
            in calcH_i (i + 1) (calcH_dh iv 0.5 hps))
      else hps)"
  by pat_completeness auto
termination
  by (relation "measure (\<lambda>(i, hps). nat (9 - i))") auto

declare calcH_i.simps [simp del]

definition calcH :: "PoincareTexture \<Rightarrow> PoincareTexture" where
  "calcH this = this\<lparr>hyperbolicPoints := calcH_i 0 (hyperbolicPoints this)\<rparr>"

subsection \<open>calcP: projection into the disk\<close>

definition calculateOszto :: "vec3 \<Rightarrow> float" where
  "calculateOszto point = vec3_z point + 1"

definition addPP :: "vec3 \<Rightarrow> float \<Rightarrow> vec2 list \<Rightarrow> vec2 list" where
  "addPP point oszto pps = pps @ [vec2 (vec3_x point / oszto) (vec3_y point / oszto)]"

text \<open>The iterator loop of \<open>calcP\<close> over \<open>hyperbolicPoints\<close>, appending to \<open>poincarePoints\<close>.\<close>

fun calcP_loop :: "vec3 list \<Rightarrow> vec2 list \<Rightarrow> vec2 list" where
  "calcP_loop [] pps = pps"
| "calcP_loop (point # rest) pps =
     (let oszto = calculateOszto point
      in calcP_loop rest (addPP point oszto pps))"

definition calcP :: "PoincareTexture \<Rightarrow> PoincareTexture" where
  "calcP this = this\<lparr>poincarePoints := calcP_loop (hyperbolicPoints this) (poincarePoints this)\<rparr>"

subsection \<open>calcC: the circles\<close>

definition calculateR :: "vec2 \<Rightarrow> float" where
  "calculateR point =
     (1 / (sqrt ((vec2_x point)\<^sup>2 + (vec2_y point)\<^sup>2))
        - (sqrt ((vec2_x point)\<^sup>2 + (vec2_y point)\<^sup>2))) / 2"

text \<open>The iterator loop of \<open>calcC\<close> over \<open>poincarePoints\<close>, appending to \<open>circles\<close>.\<close>

fun calcC_loop :: "vec2 list \<Rightarrow> vec3 list \<Rightarrow> vec3 list" where
  "calcC_loop [] cs = cs"
| "calcC_loop (point # rest) cs =
     (let r = calculateR point;
          i = normalize_vec2 point;
          origo = vec2_add point (vec2_mul i r)
      in calcC_loop rest (cs @ [vec3 (vec2_x origo) (vec2_y origo) r]))"

definition calcC :: "PoincareTexture \<Rightarrow> PoincareTexture" where
  "calcC this = this\<lparr>circles := calcC_loop (poincarePoints this) (circles this)\<rparr>"

definition math :: "PoincareTexture \<Rightarrow> PoincareTexture" where
  "math this = calcC (calcP (calcH this))"

subsection \<open>countCircles and RenderToTexture\<close>

text \<open>
  \<open>sqrtf(powf(a, 2) + powf(b, 2))\<close> on floats: the two differences, the two squares, the
  sum and the root are each rounded to binary32 (\<open>powf\<close> at the exponent 2 is taken as the
  correctly rounded square).
\<close>

definition calculateDistance :: "vec2 \<Rightarrow> vec3 \<Rightarrow> float" where
  "calculateDistance point circle =
     round32 (sqrt (round32
       (round32 ((round32 (vec2_x point - vec3_x circle))\<^sup>2)
          + round32 ((round32 (vec2_y point - vec3_y circle))\<^sup>2))))"

text \<open>The iterator loop of \<open>countCircles\<close>, with the running \<open>count\<close>.\<close>

fun countCircles_loop :: "vec2 \<Rightarrow> vec3 list \<Rightarrow> int \<Rightarrow> int" where
  "countCircles_loop point [] count = count"
| "countCircles_loop point (circle # rest) count =
     countCircles_loop point rest
       (if calculateDistance point circle \<le> vec3_z circle then count + 1 else count)"

definition countCircles :: "PoincareTexture \<Rightarrow> vec2 \<Rightarrow> int" where
  "countCircles this point = countCircles_loop point (circles this) 0"

definition manyCircles :: "PoincareTexture \<Rightarrow> vec2 \<Rightarrow> int" where
  "manyCircles this point = countCircles this point"

text \<open>
  The body of the inner loop of \<open>RenderToTexture\<close>: the colour appended for one pixel.
  \<open>(float) xC / (float) textureWidth * 2 - 1.0f\<close> is four binary32 operations after the
  two conversions; \<open>sqrt(pow(x, 2) + pow(y, 2)) > 1\<close> is evaluated in binary64, \<open>x\<close> and \<open>y\<close>
  being promoted to \<open>double\<close>.
\<close>

definition pixel :: "PoincareTexture \<Rightarrow> int \<Rightarrow> int \<Rightarrow> int \<Rightarrow> vec4" where
  "pixel this textureWidth xC yC =
     (let x = round32 (round32 (round32
                (round32 (real_of_int xC) / round32 (real_of_int textureWidth)) * 2) - 1);
          y = round32 (round32 (round32
                (round32 (real_of_int yC) / round32 (real_of_int textureWidth)) * 2) - 1);
          count = manyCircles this (vec2 x y)
      in if round64 (sqrt (round64 (round64 (x\<^sup>2) + round64 (y\<^sup>2)))) > 1 then vec4 0 0 0 1
         else if count mod 2 = 0 then vec4 1 1 0 1
         else vec4 0 0 1 1)"

text \<open>The inner loop \<open>while(xC < textureWidth)\<close>.\<close>

function RenderToTexture_xC ::
  "PoincareTexture \<Rightarrow> int \<Rightarrow> int \<Rightarrow> int \<Rightarrow> vec4 list \<Rightarrow> vec4 list" where
  "RenderToTexture_xC this textureWidth yC xC textureData =
     (if xC < textureWidth
      then RenderToTexture_xC this textureWidth yC (xC + 1)
             (textureData @ [pixel this textureWidth xC yC])
      else textureData)"
  by pat_completeness auto
termination
  by (relation "measure (\<lambda>(this, textureWidth, yC, xC, textureData). nat (textureWidth - xC))")
     auto

declare RenderToTexture_xC.simps [simp del]

text \<open>The outer loop \<open>while(yC < textureHeight)\<close>.\<close>

function RenderToTexture_yC ::
  "PoincareTexture \<Rightarrow> int \<Rightarrow> int \<Rightarrow> int \<Rightarrow> vec4 list \<Rightarrow> vec4 list" where
  "RenderToTexture_yC this textureWidth textureHeight yC textureData =
     (if yC < textureHeight
      then RenderToTexture_yC this textureWidth textureHeight (yC + 1)
             (RenderToTexture_xC this textureWidth yC 0 textureData)
      else textureData)"
  by pat_completeness auto
termination
  by (relation
        "measure (\<lambda>(this, textureWidth, textureHeight, yC, textureData). nat (textureHeight - yC))")
     auto

declare RenderToTexture_yC.simps [simp del]

definition RenderToTexture :: "PoincareTexture \<Rightarrow> int \<Rightarrow> int \<Rightarrow> vec4 list" where
  "RenderToTexture this textureWidth textureHeight =
     RenderToTexture_yC this textureWidth textureHeight 0 []"

text \<open>
  How often the body of each loop runs: the same guards and the same increments as the
  two loops above, counting the passes in the place of the pixels. The inner count is
  that of one run of the inner loop, which starts at \<open>xC = 0\<close> in every pass of the outer.
\<close>

function RenderToTexture_xC_iterations :: "int \<Rightarrow> int \<Rightarrow> nat" where
  "RenderToTexture_xC_iterations textureWidth xC =
     (if xC < textureWidth then Suc (RenderToTexture_xC_iterations textureWidth (xC + 1)) else 0)"
  by pat_completeness auto
termination
  by (relation "measure (\<lambda>(textureWidth, xC). nat (textureWidth - xC))") auto

declare RenderToTexture_xC_iterations.simps [simp del]

function RenderToTexture_yC_iterations :: "int \<Rightarrow> int \<Rightarrow> nat" where
  "RenderToTexture_yC_iterations textureHeight yC =
     (if yC < textureHeight then Suc (RenderToTexture_yC_iterations textureHeight (yC + 1)) else 0)"
  by pat_completeness auto
termination
  by (relation "measure (\<lambda>(textureHeight, yC). nat (textureHeight - yC))") auto

declare RenderToTexture_yC_iterations.simps [simp del]

subsection \<open>Constructor and increaseResolution\<close>

text \<open>
  The object as the member initialisers leave it before the constructor body runs:
  the two dimensions set, every vector empty. No texture has been created yet; the
  texture fields are given as empty.
\<close>

definition PoincareTexture_init :: "int \<Rightarrow> int \<Rightarrow> PoincareTexture" where
  "PoincareTexture_init w h =
     \<lparr>tex_width = 0, tex_height = 0, tex_image = [],
      width = w, height = h, points = [], centres = [],
      hyperbolicPoints = [], poincarePoints = [], circles = []\<rparr>"

definition PoincareTexture_ctor :: "int \<Rightarrow> int \<Rightarrow> PoincareTexture" where
  "PoincareTexture_ctor w h =
     (let this = math (PoincareTexture_init w h);
          im = RenderToTexture this w h
      in create w h im this)"

definition increaseResolution :: "PoincareTexture \<Rightarrow> int \<Rightarrow> PoincareTexture" where
  "increaseResolution this increaseBy =
     (let this1 = this\<lparr>width := width this + increaseBy\<rparr>;
          this2 = this1\<lparr>height := height this1 + increaseBy\<rparr>;
          im = RenderToTexture this2 (width this2) (height this2)
      in create (width this2) (height this2) im this2)"

text \<open>
  \<open>onInitialization\<close> builds the one texture of the program with \<open>width = 300\<close> and
  \<open>height = 300\<close>; \<open>onKeyboard\<close> reaches \<open>increaseResolution\<close> with \<open>100\<close> and \<open>-100\<close>.
\<close>

definition star_texture :: PoincareTexture where
  "star_texture = PoincareTexture_ctor 300 300"

text \<open>The branch \<open>key == 'R'\<close> of \<open>onKeyboard\<close>, as far as the texture is concerned.\<close>

definition press_R :: "PoincareTexture \<Rightarrow> PoincareTexture" where
  "press_R t = increaseResolution t (- 100)"

subsection \<open>The specification's vocabulary\<close>

text \<open>
  The definitions of this subsection follow the words of the specification, not the
  source; the theorems below relate them to the functions above.

  The lattice: direction \<open>i\<close> is the unit vector at the angle of \<open>i\<close> times 40 degrees,
  \<open>ivv = (0,0,1) sinh d + iv cosh d\<close> and \<open>p = (0,0,1) cosh d + ivv sinh d\<close>, written by
  components.
\<close>

definition lattice_point :: "int \<Rightarrow> real \<Rightarrow> vec3" where
  "lattice_point i d =
     (let \<theta> = real_of_int i * 40 * pi / 180;
          ivv_x = cos \<theta> * cosh d;
          ivv_y = sin \<theta> * cosh d;
          ivv_z = sinh d
      in vec3 (ivv_x * sinh d) (ivv_y * sinh d) (cosh d + ivv_z * sinh d))"

definition distances :: "real list" where
  "distances = [1 / 2, 3 / 2, 5 / 2, 7 / 2, 9 / 2, 11 / 2]"

definition lattice :: "vec3 list" where
  "lattice = concat (map (\<lambda>i. map (lattice_point i) distances) [0, 1, 2, 3, 4, 5, 6, 7, 8])"

text \<open>The disk projector: perspective division of \<open>x\<close> and \<open>y\<close> by \<open>z + 1\<close>.\<close>

definition project :: "vec3 \<Rightarrow> vec2" where
  "project p = vec2 (vec3_x p / (vec3_z p + 1)) (vec3_y p / (vec3_z p + 1))"

text \<open>
  The geodesic builder: with \<open>r\<close> the norm of \<open>q\<close> and \<open>g = (1/r - r)/2\<close>, the circle
  of centre \<open>q + normalize(q) g\<close> and third component \<open>g\<close>.
\<close>

definition geodesic :: "vec2 \<Rightarrow> vec3" where
  "geodesic q =
     (let r = sqrt ((vec2_x q)\<^sup>2 + (vec2_y q)\<^sup>2);
          g = (1 / r - r) / 2;
          centre = vec2_add q (vec2_mul (normalize_vec2 q) g)
      in vec3 (vec2_x centre) (vec2_y centre) g)"

text \<open>
  The region classifier and the colouring rule: the number of circles whose centre is
  within their radius of \<open>(x, y)\<close>; black outside the unit disk, else yellow for an even
  count, else blue.
\<close>

definition containment_count :: "vec3 list \<Rightarrow> real \<Rightarrow> real \<Rightarrow> nat" where
  "containment_count cs x y =
     length (filter (\<lambda>c. sqrt ((vec3_x c - x)\<^sup>2 + (vec3_y c - y)\<^sup>2) \<le> vec3_z c) cs)"

definition synthesizer_colour :: "vec3 list \<Rightarrow> real \<Rightarrow> real \<Rightarrow> vec4" where
  "synthesizer_colour cs x y =
     (if sqrt (x\<^sup>2 + y\<^sup>2) > 1 then vec4 0 0 0 1
      else if even (containment_count cs x y) then vec4 1 1 0 1
      else vec4 0 0 1 1)"

text \<open>
  The same vocabulary in the arithmetic of the machine: the normalised coordinate
  \<open>c / W * 2 - 1\<close> with each of its operations rounded to single precision, the norm of
  \<open>(x, y)\<close> in double precision, the distance to a centre in single precision, and the
  colouring rule on these.
\<close>

definition float_coordinate :: "int \<Rightarrow> int \<Rightarrow> float" where
  "float_coordinate c W =
     round32 (round32 (round32 (round32 (real_of_int c) / round32 (real_of_int W)) * 2) - 1)"

definition float_norm :: "float \<Rightarrow> float \<Rightarrow> double" where
  "float_norm x y = round64 (sqrt (round64 (round64 (x\<^sup>2) + round64 (y\<^sup>2))))"

definition float_distance :: "float \<Rightarrow> float \<Rightarrow> vec3 \<Rightarrow> float" where
  "float_distance x y c =
     round32 (sqrt (round32
       (round32 ((round32 (x - vec3_x c))\<^sup>2) + round32 ((round32 (y - vec3_y c))\<^sup>2))))"

definition float_containment_count :: "vec3 list \<Rightarrow> float \<Rightarrow> float \<Rightarrow> nat" where
  "float_containment_count cs x y = length (filter (\<lambda>c. float_distance x y c \<le> vec3_z c) cs)"

definition float_colour :: "vec3 list \<Rightarrow> float \<Rightarrow> float \<Rightarrow> vec4" where
  "float_colour cs x y =
     (if float_norm x y > 1 then vec4 0 0 0 1
      else if even (float_containment_count cs x y) then vec4 1 1 0 1
      else vec4 0 0 1 1)"

text \<open>
  The Euclidean norm of the projection of \<open>lattice_point i d\<close>, which does not depend
  on the direction.
\<close>

definition rho :: "real \<Rightarrow> real" where
  "rho d = cosh d * sinh d / (cosh d + sinh d * sinh d + 1)"

section \<open>Rounding: values and error bounds\<close>

lemma round_even_error: "\<bar>of_int (round_even m) - m\<bar> \<le> 1 / 2"
proof -
  define f where "f = \<lfloor>m\<rfloor>"
  have "real_of_int f \<le> m" and "m < real_of_int f + 1"
    unfolding f_def by linarith+
  then show ?thesis
    unfolding round_even_def Let_def f_def [symmetric] by (simp add: abs_if)
qed

lemma round_to_0: "round_to p emin 0 = 0"
  by (simp add: round_to_def)

lemma round_to_scaled:
  assumes lo: "2 ^ nat p \<le> \<bar>x\<bar> * 2 ^ n" and hi: "\<bar>x\<bar> * 2 ^ n < 2 * 2 ^ nat p"
    and p: "0 \<le> p" and n: "- int n \<ge> emin"
  shows "round_to p emin x = of_int (round_even (x * 2 ^ n)) / 2 ^ n"
proof -
  have nz: "x \<noteq> 0"
  proof
    assume "x = 0"
    with lo have "(2::real) ^ nat p \<le> 0" by simp
    moreover have "(0::real) < 2 ^ nat p" by simp
    ultimately show False by linarith
  qed
  then have pos: "0 < \<bar>x\<bar>" by simp
  have pn: "(2::real) powr of_int (p - int n) = 2 ^ nat p / 2 ^ n"
    using p by (simp add: powr_diff powr_realpow [symmetric])
  have pn1: "(2::real) powr (of_int (p - int n) + 1) = 2 * 2 ^ nat p / 2 ^ n"
    using pn by (simp add: powr_add)
  have "2 powr of_int (p - int n) \<le> \<bar>x\<bar>"
    unfolding pn using lo by (simp add: field_simps)
  moreover have "\<bar>x\<bar> < 2 powr (of_int (p - int n) + 1)"
    unfolding pn1 using hi by (simp add: field_simps)
  ultimately have "\<lfloor>log 2 \<bar>x\<bar>\<rfloor> = p - int n"
    using pos by (simp add: floor_log_eq_powr_iff)
  then have e: "max (\<lfloor>log 2 \<bar>x\<bar>\<rfloor> - p) emin = - int n"
    using n by simp
  have "(2::real) powr of_int (- int n) = 1 / 2 ^ n"
    by (simp add: powr_minus_divide powr_realpow)
  then show ?thesis
    using nz by (simp add: round_to_def e Let_def)
qed

lemma round32_scaled:
  assumes "2 ^ 23 \<le> \<bar>x\<bar> * 2 ^ n" and "\<bar>x\<bar> * 2 ^ n < 2 ^ 24" and "n \<le> 149"
  shows "round32 x = of_int (round_even (x * 2 ^ n)) / 2 ^ n"
  unfolding round32_def using assms by (intro round_to_scaled) simp_all

lemma round64_scaled:
  assumes "2 ^ 52 \<le> \<bar>x\<bar> * 2 ^ n" and "\<bar>x\<bar> * 2 ^ n < 2 ^ 53" and "n \<le> 1074"
  shows "round64 x = of_int (round_even (x * 2 ^ n)) / 2 ^ n"
  unfolding round64_def using assms by (intro round_to_scaled) simp_all

lemma round_to_error:
  assumes "0 \<le> p"
  shows "\<bar>round_to p emin x - x\<bar> \<le> (\<bar>x\<bar> * 2 powr of_int (- p) + 2 powr of_int emin) / 2"
proof (cases "x = 0")
  case True
  then show ?thesis by (simp add: round_to_0)
next
  case False
  define k where "k = \<lfloor>log 2 \<bar>x\<bar>\<rfloor>"
  define e where "e = max (k - p) emin"
  define s :: real where "s = 2 powr of_int e"
  have spos: "0 < s" by (simp add: s_def)
  have r: "round_to p emin x = of_int (round_even (x / s)) * s"
    using False by (simp add: round_to_def k_def e_def s_def Let_def)
  have "\<bar>of_int (round_even (x / s)) - x / s\<bar> \<le> 1 / 2"
    by (rule round_even_error)
  then have "\<bar>of_int (round_even (x / s)) - x / s\<bar> * s \<le> 1 / 2 * s"
    using spos by (intro mult_right_mono) simp_all
  moreover have "\<bar>of_int (round_even (x / s)) - x / s\<bar> * s = \<bar>of_int (round_even (x / s)) * s - x\<bar>"
  proof -
    have "\<bar>of_int (round_even (x / s)) - x / s\<bar> * s = \<bar>(of_int (round_even (x / s)) - x / s) * s\<bar>"
      using spos by (simp add: abs_mult)
    also have "(of_int (round_even (x / s)) - x / s) * s = of_int (round_even (x / s)) * s - x"
      using spos by (simp add: algebra_simps)
    finally show ?thesis .
  qed
  ultimately have err: "\<bar>round_to p emin x - x\<bar> \<le> s / 2"
    by (simp add: r)
  have "real_of_int k \<le> log 2 \<bar>x\<bar>"
    unfolding k_def by simp
  then have "2 powr of_int k \<le> 2 powr log 2 \<bar>x\<bar>"
    by simp
  also have "\<dots> = \<bar>x\<bar>"
    using False by simp
  finally have k: "2 powr of_int k \<le> \<bar>x\<bar>" .
  have "s \<le> 2 powr of_int (k - p) + 2 powr of_int emin"
  proof (cases "k - p \<le> emin")
    case True
    then have "s = 2 powr of_int emin" by (simp add: s_def e_def max_def)
    moreover have "0 \<le> 2 powr real_of_int (k - p)" by simp
    ultimately show ?thesis by linarith
  next
    case False
    then have "s = 2 powr of_int (k - p)" by (simp add: s_def e_def max_def)
    moreover have "0 \<le> 2 powr real_of_int emin" by simp
    ultimately show ?thesis by linarith
  qed
  also have "(2::real) powr of_int (k - p) = 2 powr of_int k * 2 powr of_int (- p)"
    by (simp add: powr_diff powr_minus_divide)
  also have "\<dots> \<le> \<bar>x\<bar> * 2 powr of_int (- p)"
    using k by (intro mult_right_mono) simp_all
  finally have "s \<le> \<bar>x\<bar> * 2 powr of_int (- p) + 2 powr of_int emin"
    by simp
  then have "s / 2 \<le> (\<bar>x\<bar> * 2 powr of_int (- p) + 2 powr of_int emin) / 2"
    by simp
  with err show ?thesis by (rule order_trans)
qed

lemma round32_error: "\<bar>round32 x - x\<bar> \<le> (\<bar>x\<bar> + 1) / 1000000"
proof -
  have "\<bar>round32 x - x\<bar> \<le> (\<bar>x\<bar> * 2 powr of_int (- 23) + 2 powr of_int (- 149)) / 2"
    unfolding round32_def by (rule round_to_error) simp
  also have "(2::real) powr of_int (- 23) = 1 / 2 ^ 23"
    by (simp add: powr_minus_divide)
  also have "(2::real) powr of_int (- 149) = 1 / 2 ^ 149"
    by (simp add: powr_minus_divide)
  finally have "\<bar>round32 x - x\<bar> \<le> (\<bar>x\<bar> * (1 / 2 ^ 23) + 1 / 2 ^ 149) / 2" .
  moreover have "(\<bar>x\<bar> * (1 / 2 ^ 23) + 1 / 2 ^ 149) / 2 \<le> (\<bar>x\<bar> + 1) / 1000000"
  proof -
    have "\<bar>x\<bar> * (1 / 2 ^ 23) \<le> \<bar>x\<bar> * (1 / 1000000)"
      by (intro mult_left_mono) simp_all
    moreover have "(1::real) / 2 ^ 149 \<le> 1 / 1000000"
      by simp
    ultimately show ?thesis by simp
  qed
  ultimately show ?thesis by linarith
qed

lemma round32_0: "round32 0 = 0"
  by (simp add: round32_def round_to_0)

lemma round64_0: "round64 0 = 0"
  by (simp add: round64_def round_to_0)

lemma round_even_ge_floor: "\<lfloor>m\<rfloor> \<le> round_even m"
  by (simp add: round_even_def Let_def)

lemma round64_gt_1:
  assumes "1 + 1 / 2 ^ 52 \<le> v" and "v < 2"
  shows "1 < round64 v"
proof -
  have v: "0 \<le> v" using assms by simp
  have "round64 v = of_int (round_even (v * 2 ^ 52)) / 2 ^ 52"
    using assms v by (intro round64_scaled) (simp_all add: field_simps)
  moreover have "(2 ^ 52 + 1 :: int) \<le> \<lfloor>v * 2 ^ 52\<rfloor>"
    using assms(1) by (simp add: le_floor_iff field_simps)
  then have "(2 ^ 52 + 1 :: int) \<le> round_even (v * 2 ^ 52)"
    using round_even_ge_floor [of "v * 2 ^ 52"] by linarith
  then have "real_of_int (2 ^ 52 + 1) \<le> real_of_int (round_even (v * 2 ^ 52))"
    by (rule of_int_le_iff [THEN iffD2])
  ultimately show ?thesis
    by (simp add: field_simps)
qed

lemma float_coordinate_150_300: "float_coordinate 150 300 = 0"
proof -
  have a: "round32 150 = 150"
    by (subst round32_scaled [where n = 16]) (simp_all add: round_even_def)
  have b: "round32 300 = 300"
    by (subst round32_scaled [where n = 15]) (simp_all add: round_even_def)
  have c: "round32 (1 / 2) = 1 / 2"
    by (subst round32_scaled [where n = 24]) (simp_all add: round_even_def)
  have d: "round32 1 = 1"
    by (subst round32_scaled [where n = 23]) (simp_all add: round_even_def)
  show ?thesis
    by (simp add: float_coordinate_def a b c d round32_0)
qed

lemma float_coordinate_1_2: "float_coordinate 1 2 = 0"
proof -
  have a: "round32 1 = 1"
    by (subst round32_scaled [where n = 23]) (simp_all add: round_even_def)
  have b: "round32 2 = 2"
    by (subst round32_scaled [where n = 22]) (simp_all add: round_even_def)
  have c: "round32 (1 / 2) = 1 / 2"
    by (subst round32_scaled [where n = 24]) (simp_all add: round_even_def)
  show ?thesis
    by (simp add: float_coordinate_def a b c round32_0)
qed

lemma float_coordinate_60_300: "float_coordinate 60 300 = - 10066330 / 2 ^ 24"
proof -
  have a: "round32 60 = 60"
    by (subst round32_scaled [where n = 18]) (simp_all add: round_even_def)
  have b: "round32 300 = 300"
    by (subst round32_scaled [where n = 15]) (simp_all add: round_even_def)
  have c: "round32 (1 / 5) = 13421773 / 2 ^ 26"
    by (subst round32_scaled [where n = 26]) (simp_all add: round_even_def)
  have d: "round32 (13421773 / 2 ^ 25) = 13421773 / 2 ^ 25"
    by (subst round32_scaled [where n = 25]) (simp_all add: round_even_def)
  have e: "round32 (13421773 / 2 ^ 25 - 1) = - 10066330 / 2 ^ 24"
    by (subst round32_scaled [where n = 24]) (simp_all add: round_even_def)
  have q: "round32 60 / round32 300 = 1 / 5"
    by (simp add: a b)
  have m: "13421773 / 2 ^ 26 * 2 = (13421773 / 2 ^ 25 :: real)"
    by simp
  show ?thesis
    by (simp only: float_coordinate_def of_int_numeral q c m d e)
qed

lemma float_coordinate_30_300: "float_coordinate 30 300 = - 13421773 / 2 ^ 24"
proof -
  have a: "round32 30 = 30"
    by (subst round32_scaled [where n = 19]) (simp_all add: round_even_def)
  have b: "round32 300 = 300"
    by (subst round32_scaled [where n = 15]) (simp_all add: round_even_def)
  have c: "round32 (1 / 10) = 13421773 / 2 ^ 27"
    by (subst round32_scaled [where n = 27]) (simp_all add: round_even_def)
  have d: "round32 (13421773 / 2 ^ 26) = 13421773 / 2 ^ 26"
    by (subst round32_scaled [where n = 26]) (simp_all add: round_even_def)
  have e: "round32 (13421773 / 2 ^ 26 - 1) = - 13421773 / 2 ^ 24"
    by (subst round32_scaled [where n = 24]) (simp_all add: round_even_def)
  have q: "round32 30 / round32 300 = 1 / 10"
    by (simp add: a b)
  have m: "13421773 / 2 ^ 27 * 2 = (13421773 / 2 ^ 26 :: real)"
    by simp
  show ?thesis
    by (simp only: float_coordinate_def of_int_numeral q c m d e)
qed

lemma float_norm_60_30: "1 < float_norm (- 10066330 / 2 ^ 24) (- 13421773 / 2 ^ 24)"
proof -
  have x2: "round64 ((- 10066330 / 2 ^ 24)\<^sup>2) = 101330999668900 / 2 ^ 48"
    by (subst round64_scaled [where n = 54]) (simp_all add: round_even_def power2_eq_square)
  have y2: "round64 ((- 13421773 / 2 ^ 24)\<^sup>2) = 180143990463529 / 2 ^ 48"
    by (subst round64_scaled [where n = 53]) (simp_all add: round_even_def power2_eq_square)
  have s: "round64 (101330999668900 / 2 ^ 48 + 180143990463529 / 2 ^ 48) = 281474990132429 / 2 ^ 48"
    by (subst round64_scaled [where n = 52]) (simp_all add: round_even_def)
  have "1 + 1 / 2 ^ 52 \<le> sqrt (281474990132429 / 2 ^ 48)"
    by (rule real_le_rsqrt) (simp add: power2_eq_square)
  moreover have "sqrt (281474990132429 / 2 ^ 48) < 2"
    by (rule real_less_lsqrt) simp_all
  ultimately have "1 < round64 (sqrt (281474990132429 / 2 ^ 48))"
    by (rule round64_gt_1)
  then show ?thesis
    unfolding float_norm_def x2 y2 s .
qed

lemma square_round32:
  assumes "\<bar>v\<bar> \<le> 3"
  shows "v\<^sup>2 - 1 / 10000 \<le> round32 ((round32 v)\<^sup>2)" and "round32 ((round32 v)\<^sup>2) \<le> 17"
proof -
  define a where "a = round32 v"
  have "(\<bar>v\<bar> + 1) / 1000000 \<le> 4 / 1000000"
    using assms by simp
  with round32_error [of v] have av: "\<bar>a - v\<bar> \<le> 4 / 1000000"
    unfolding a_def by (rule order_trans)
  then have a4: "\<bar>a\<bar> \<le> 4" using assms by linarith
  have "\<bar>a + v\<bar> \<le> 7" using a4 assms by linarith
  with av have "\<bar>a - v\<bar> * \<bar>a + v\<bar> \<le> 4 / 1000000 * 7"
    by (intro mult_mono) simp_all
  moreover have "a\<^sup>2 - v\<^sup>2 = (a - v) * (a + v)"
    by (simp add: power2_eq_square algebra_simps)
  ultimately have sq: "\<bar>a\<^sup>2 - v\<^sup>2\<bar> \<le> 28 / 1000000"
    by (simp add: abs_mult)
  have "a\<^sup>2 \<le> 4\<^sup>2"
    using a4 by (intro power2_le_iff_abs_le [THEN iffD2]) simp_all
  then have a16: "a\<^sup>2 \<le> 16" by simp
  have "\<bar>round32 (a\<^sup>2) - a\<^sup>2\<bar> \<le> (\<bar>a\<^sup>2\<bar> + 1) / 1000000"
    by (rule round32_error)
  moreover have "(\<bar>a\<^sup>2\<bar> + 1) / 1000000 \<le> 17 / 1000000"
    using a16 by simp
  ultimately have r: "\<bar>round32 (a\<^sup>2) - a\<^sup>2\<bar> \<le> 17 / 1000000"
    by (rule order_trans)
  show "v\<^sup>2 - 1 / 10000 \<le> round32 ((round32 v)\<^sup>2)"
    unfolding a_def [symmetric] using r sq by linarith
  show "round32 ((round32 v)\<^sup>2) \<le> 17"
    unfolding a_def [symmetric] using r a16 by linarith
qed

lemma origin_float_distance:
  assumes D: "D = sqrt (cx\<^sup>2 + cy\<^sup>2)" and lo: "3 / 5 \<le> D" and hi: "D \<le> 3"
  shows "D - 1 / 1000
           \<le> round32 (sqrt (round32 (round32 ((round32 (0 - cx))\<^sup>2) + round32 ((round32 (0 - cy))\<^sup>2))))"
proof -
  define A where "A = round32 ((round32 (0 - cx))\<^sup>2)"
  define B where "B = round32 ((round32 (0 - cy))\<^sup>2)"
  define S where "S = round32 (A + B)"
  have D2: "D\<^sup>2 = cx\<^sup>2 + cy\<^sup>2"
    unfolding D by simp
  have "\<bar>cx\<bar> = sqrt (cx\<^sup>2)" and "\<bar>cy\<bar> = sqrt (cy\<^sup>2)"
    by simp_all
  then have "\<bar>cx\<bar> \<le> D" and "\<bar>cy\<bar> \<le> D"
    unfolding D by (simp_all del: real_sqrt_abs)
  then have cx: "\<bar>0 - cx\<bar> \<le> 3" and cy: "\<bar>0 - cy\<bar> \<le> 3"
    using hi by linarith+
  have A: "cx\<^sup>2 - 1 / 10000 \<le> A" "A \<le> 17"
    unfolding A_def using square_round32 [OF cx] by simp_all
  have B: "cy\<^sup>2 - 1 / 10000 \<le> B" "B \<le> 17"
    unfolding B_def using square_round32 [OF cy] by simp_all
  have "(3 / 5)\<^sup>2 \<le> D\<^sup>2"
    using lo by (intro power_mono) simp_all
  then have D36: "9 / 25 \<le> D\<^sup>2" by (simp add: power2_eq_square)
  have AB: "D\<^sup>2 - 2 / 10000 \<le> A + B" "A + B \<le> 34"
    using A B D2 by linarith+
  then have "\<bar>A + B\<bar> \<le> 34" using D36 by linarith
  then have "(\<bar>A + B\<bar> + 1) / 1000000 \<le> 35 / 1000000"
    by simp
  moreover have "\<bar>S - (A + B)\<bar> \<le> (\<bar>A + B\<bar> + 1) / 1000000"
    unfolding S_def by (rule round32_error)
  ultimately have "\<bar>S - (A + B)\<bar> \<le> 35 / 1000000"
    by (rule order_trans [rotated])
  then have S: "D\<^sup>2 - 3 / 10000 \<le> S" "S \<le> 36"
    using AB by linarith+
  have "(D - 1 / 2000)\<^sup>2 = D\<^sup>2 - D / 1000 + 1 / 4000000"
    by (simp add: power2_eq_square algebra_simps)
  then have "(D - 1 / 2000)\<^sup>2 \<le> D\<^sup>2 - 3 / 10000"
    using lo by linarith
  then have "(D - 1 / 2000)\<^sup>2 \<le> S" using S by linarith
  then have lo_sqrt: "D - 1 / 2000 \<le> sqrt S"
    by (rule real_le_rsqrt)
  have S0: "0 \<le> S" using S D36 by linarith
  have hi_sqrt: "sqrt S \<le> 6"
    using S S0 by (intro real_le_lsqrt) simp_all
  have "0 \<le> sqrt S" using S0 by simp
  then have "\<bar>sqrt S\<bar> \<le> 6" using hi_sqrt by linarith
  then have "(\<bar>sqrt S\<bar> + 1) / 1000000 \<le> 7 / 1000000"
    by simp
  moreover have "\<bar>round32 (sqrt S) - sqrt S\<bar> \<le> (\<bar>sqrt S\<bar> + 1) / 1000000"
    by (rule round32_error)
  ultimately have "\<bar>round32 (sqrt S) - sqrt S\<bar> \<le> 7 / 1000000"
    by (rule order_trans [rotated])
  then have "D - 1 / 1000 \<le> round32 (sqrt S)"
    using lo_sqrt by linarith
  then show ?thesis
    by (simp only: S_def A_def B_def)
qed

section \<open>The loops as list functions\<close>

lemma calcP_loop_eq: "calcP_loop hps pps = pps @ map project hps"
  by (induction hps arbitrary: pps) (simp_all add: addPP_def calculateOszto_def project_def Let_def)

lemma calcC_loop_eq: "calcC_loop pps cs = cs @ map geodesic pps"
  by (induction pps arbitrary: cs) (simp_all add: geodesic_def calculateR_def Let_def)

lemma countCircles_loop_eq:
  "countCircles_loop (vec2 x y) cs n = n + int (float_containment_count cs x y)"
  by (induction cs arbitrary: n)
     (simp_all add: float_containment_count_def float_distance_def calculateDistance_def)

lemma pixel_eq:
  "pixel this W xC yC =
     float_colour (circles this) (float_coordinate xC W) (float_coordinate yC W)"
proof -
  have "(int n mod 2 = 0) = even n" for n :: nat
    by presburger
  then show ?thesis
    by (simp add: pixel_def float_colour_def float_norm_def float_coordinate_def manyCircles_def
          countCircles_def countCircles_loop_eq Let_def)
qed

lemma RenderToTexture_xC_eq:
  "RenderToTexture_xC this W yC xC td = td @ map (\<lambda>x. pixel this W x yC) [xC..W - 1]"
proof (induction this W yC xC td rule: RenderToTexture_xC.induct)
  case (1 this W yC xC td)
  show ?case
  proof (cases "xC < W")
    case True
    then have "[xC..W - 1] = xC # [xC + 1..W - 1]"
      by (simp add: upto_rec1)
    with True "1" show ?thesis
      by (subst RenderToTexture_xC.simps) simp
  next
    case False
    then show ?thesis
      by (subst RenderToTexture_xC.simps) simp
  qed
qed

lemma RenderToTexture_yC_eq:
  "RenderToTexture_yC this W H yC td =
     td @ concat (map (\<lambda>y. map (\<lambda>x. pixel this W x y) [0..W - 1]) [yC..H - 1])"
proof (induction this W H yC td rule: RenderToTexture_yC.induct)
  case (1 this W H yC td)
  show ?case
  proof (cases "yC < H")
    case True
    then have "[yC..H - 1] = yC # [yC + 1..H - 1]"
      by (simp add: upto_rec1)
    with True "1" show ?thesis
      by (subst RenderToTexture_yC.simps) (simp add: RenderToTexture_xC_eq)
  next
    case False
    then show ?thesis
      by (subst RenderToTexture_yC.simps) simp
  qed
qed

lemma RenderToTexture_eq:
  "RenderToTexture this W H = concat (map (\<lambda>y. map (\<lambda>x. pixel this W x y) [0..W - 1]) [0..H - 1])"
  by (simp add: RenderToTexture_def RenderToTexture_yC_eq)

lemma concat_uniform_length:
  "\<forall>r \<in> set rows. length r = n \<Longrightarrow> length (concat rows) = length rows * n"
  by (induction rows) simp_all

lemma concat_uniform_nth:
  "\<forall>r \<in> set rows. length r = n \<Longrightarrow> i < length rows \<Longrightarrow> j < n \<Longrightarrow>
     concat rows ! (i * n + j) = rows ! i ! j"
proof (induction rows arbitrary: i)
  case Nil
  then show ?case by simp
next
  case (Cons r rows)
  show ?case
  proof (cases i)
    case 0
    with Cons.prems show ?thesis by (simp add: nth_append)
  next
    case (Suc k)
    with Cons.prems have "concat rows ! (k * n + j) = rows ! k ! j"
      by (intro Cons.IH) auto
    moreover have "Suc k * n + j - n = k * n + j" by simp
    ultimately show ?thesis using Cons.prems Suc
      by (simp add: nth_append)
  qed
qed

lemma RenderToTexture_length:
  assumes "0 \<le> W" and "0 \<le> H"
  shows "int (length (RenderToTexture this W H)) = W * H"
proof -
  have "length (RenderToTexture this W H) = nat H * nat W"
    unfolding RenderToTexture_eq
    by (subst concat_uniform_length [where n = "nat W"]) auto
  then show ?thesis
    using assms by (simp add: nat_mult_distrib mult.commute)
qed

lemma RenderToTexture_nth:
  assumes "0 \<le> xc" "xc < W" "0 \<le> yc" "yc < H"
  shows "RenderToTexture this W H ! nat (yc * W + xc) = pixel this W xc yc"
proof -
  let ?rows = "map (\<lambda>y. map (\<lambda>x. pixel this W x y) [0..W - 1]) [0..H - 1]"
  have idx: "nat (yc * W + xc) = nat yc * nat W + nat xc"
    using assms by (simp add: nat_add_distrib nat_mult_distrib)
  have "concat ?rows ! (nat yc * nat W + nat xc) = ?rows ! nat yc ! nat xc"
    using assms by (intro concat_uniform_nth) auto
  also have "\<dots> = pixel this W xc yc"
    using assms by simp
  finally show ?thesis
    by (simp add: RenderToTexture_eq idx)
qed

lemma RenderToTexture_empty:
  assumes "W \<le> 0 \<or> H \<le> 0"
  shows "RenderToTexture this W H = []"
  using assms by (auto simp add: RenderToTexture_eq)

lemma RenderToTexture_circles:
  assumes "circles a = circles b"
  shows "RenderToTexture a W H = RenderToTexture b W H"
  by (simp add: RenderToTexture_eq pixel_eq assms)

section \<open>The lattice\<close>

lemma calculateP_lattice_point:
  "calculateP (calculateIvv (calculateIv i) d) d = lattice_point i d"
  by (simp add: calculateP_def calculateIvv_def calculateIv_def lattice_point_def
        vec3_add_def vec3_mul_def Let_def)

lemma calcH_dh_eq:
  "calcH_dh iv (1 / 2) hps = hps @ map (\<lambda>d. calculateP (calculateIvv iv d) d) distances"
  by (simp add: calcH_dh.simps Let_def distances_def)

lemma calcH_i_eq: "calcH_i 0 hps = hps @ lattice"
  by (simp add: calcH_i.simps Let_def calcH_dh_eq lattice_def calculateP_lattice_point)

lemma length_lattice: "length lattice = 54"
  by (simp add: lattice_def distances_def)

lemma lattice_cases:
  assumes "p \<in> set lattice"
  obtains i d where "p = lattice_point i d" and "1 / 2 \<le> d"
  using assms by (auto simp add: lattice_def distances_def)

lemma defect_algebra:
  fixes a b c s :: real
  assumes "a\<^sup>2 + b\<^sup>2 = 1" and "c\<^sup>2 = s\<^sup>2 + 1"
  shows "(a * c * s)\<^sup>2 + (b * c * s)\<^sup>2 - ((c + s * s)\<^sup>2 - 1) = - 2 * c * s\<^sup>2"
proof -
  have "(a * c * s)\<^sup>2 + (b * c * s)\<^sup>2 = (a\<^sup>2 + b\<^sup>2) * (c\<^sup>2 * s\<^sup>2)"
    by (simp add: power2_eq_square algebra_simps)
  also have "\<dots> = (s\<^sup>2 + 1) * s\<^sup>2"
    by (simp only: assms mult_1)
  finally have xy: "(a * c * s)\<^sup>2 + (b * c * s)\<^sup>2 = (s\<^sup>2 + 1) * s\<^sup>2" .
  have "(c + s * s)\<^sup>2 - 1 = c\<^sup>2 + 2 * c * s\<^sup>2 + s\<^sup>2 * s\<^sup>2 - 1"
    by (simp add: power2_eq_square algebra_simps)
  also have "\<dots> = (s\<^sup>2 + 1) * s\<^sup>2 + 2 * c * s\<^sup>2"
    by (simp add: assms(2) algebra_simps)
  finally show ?thesis
    using xy by simp
qed

text \<open>
  How far a lattice point is from the hyperboloid \<open>x\<^sup>2 + y\<^sup>2 = z\<^sup>2 - 1\<close>: the point at
  distance \<open>d\<close> from the apex in direction \<open>iv\<close> is \<open>(0,0,1) cosh d + iv sinh d\<close>;
  \<open>calculateP\<close> is given \<open>ivv\<close> in the place of \<open>iv\<close>.
\<close>

lemma lattice_point_defect:
  "(vec3_x (lattice_point i d))\<^sup>2 + (vec3_y (lattice_point i d))\<^sup>2
     - ((vec3_z (lattice_point i d))\<^sup>2 - 1) = - 2 * cosh d * (sinh d)\<^sup>2"
  unfolding lattice_point_def Let_def vec3.sel
  by (rule defect_algebra) (simp_all add: cosh_square_eq)

lemma lattice_point_z_ge:
  assumes "1 / 2 \<le> d"
  shows "cosh (1 / 2) \<le> vec3_z (lattice_point i d)"
proof -
  have "cosh (1 / 2) \<le> cosh d"
    using assms by (simp add: cosh_real_nonneg_le_iff)
  moreover have "0 \<le> sinh d * sinh d" by simp
  ultimately have "cosh (1 / 2) \<le> cosh d + sinh d * sinh d"
    by (rule add_increasing2 [rotated])
  then show ?thesis
    by (simp add: lattice_point_def Let_def)
qed

lemma cosh_half_gt_1: "1 < cosh (1 / 2 :: real)"
  using cosh_real_strict_mono [of 0 "1 / 2"] by simp

lemma lattice_z_bound:
  assumes "p \<in> set lattice"
  shows "cosh (1 / 2) \<le> vec3_z p \<and> 1 < cosh (1 / 2 :: real)"
  using assms by (auto elim!: lattice_cases intro: lattice_point_z_ge cosh_half_gt_1)

lemma defect_first: "- 2 * cosh (1 / 2 :: real) * (sinh (1 / 2))\<^sup>2 \<le> - 1 / 2"
proof -
  have s: "1 / 2 \<le> sinh (1 / 2 :: real)"
    using real_le_x_sinh [of "1 / 2"] by (simp add: sinh_field_def exp_minus)
  have c: "1 \<le> cosh (1 / 2 :: real)"
    by (rule cosh_real_ge_1)
  have "(1 / 2)\<^sup>2 \<le> (sinh (1 / 2 :: real))\<^sup>2"
    using s by (intro power_mono) simp_all
  then have s2: "1 / 4 \<le> (sinh (1 / 2 :: real))\<^sup>2"
    by (simp add: power2_eq_square)
  have "1 * (1 / 4) \<le> cosh (1 / 2 :: real) * (sinh (1 / 2))\<^sup>2"
    using c s2 by (intro mult_mono) simp_all
  then show ?thesis by simp
qed

section \<open>Projected lattice points and their circles\<close>

lemma rho_pos:
  assumes "0 < d"
  shows "0 < rho d"
proof -
  have "0 < cosh d + sinh d * sinh d + 1"
    by (intro add_pos_nonneg add_pos_pos) simp_all
  moreover have "0 < cosh d * sinh d"
    using assms by simp
  ultimately show ?thesis
    unfolding rho_def by (rule divide_pos_pos [rotated])
qed

lemma rho_less_1: "rho d < 1"
proof -
  have den: "0 < cosh d + sinh d * sinh d + 1"
    by (intro add_pos_nonneg add_pos_pos) simp_all
  have "sinh d < cosh d" by (rule sinh_less_cosh_real)
  then have "cosh d * sinh d < cosh d * cosh d"
    by (intro mult_strict_left_mono) simp_all
  also have "\<dots> = sinh d * sinh d + 1"
    using cosh_square_eq [of d] by (simp add: power2_eq_square)
  also have "\<dots> < cosh d + sinh d * sinh d + 1"
    by simp
  finally show ?thesis
    using den by (simp add: rho_def)
qed

lemma rho_ge:
  assumes "1 / 2 \<le> d"
  shows "1 / 5 \<le> rho d"
proof -
  have s: "1 / 2 \<le> sinh d"
  proof -
    have "d \<le> sinh d"
      using real_le_x_sinh [of d] assms by (simp add: sinh_field_def exp_minus)
    with assms show ?thesis by simp
  qed
  have e: "exp (- d) \<le> 1"
    using assms by simp
  have c: "cosh d \<le> sinh d + 1"
    using cosh_minus_sinh [of d] e by linarith
  have den: "0 < cosh d + sinh d * sinh d + 1"
    by (intro add_pos_nonneg add_pos_pos) simp_all
  have "cosh d + sinh d * sinh d + 1 = cosh d * (1 + cosh d)"
    using cosh_square_eq [of d] by (simp add: power2_eq_square algebra_simps)
  also have "\<dots> \<le> cosh d * (5 * sinh d)"
    using c s by (intro mult_left_mono) simp_all
  finally have "cosh d + sinh d * sinh d + 1 \<le> 5 * (cosh d * sinh d)"
    by (simp add: algebra_simps)
  then show ?thesis
    using den by (simp add: rho_def field_simps)
qed

lemma project_lattice_point:
  "project (lattice_point i d) =
     vec2 (cos (real_of_int i * 40 * pi / 180) * rho d) (sin (real_of_int i * 40 * pi / 180) * rho d)"
  by (simp add: project_def lattice_point_def Let_def rho_def)

lemma norm_scaled_unit:
  fixes a b r :: real
  assumes "a\<^sup>2 + b\<^sup>2 = 1" and "0 \<le> r"
  shows "sqrt ((a * r)\<^sup>2 + (b * r)\<^sup>2) = r"
proof -
  have "(a * r)\<^sup>2 + (b * r)\<^sup>2 = (a\<^sup>2 + b\<^sup>2) * r\<^sup>2"
    by (simp add: algebra_simps)
  also have "\<dots> = r\<^sup>2"
    by (simp only: assms(1) mult_1)
  finally show ?thesis
    using assms(2) by simp
qed

lemma norm_project_lattice_point:
  assumes "0 < d"
  shows "sqrt ((vec2_x (project (lattice_point i d)))\<^sup>2 + (vec2_y (project (lattice_point i d)))\<^sup>2)
           = rho d"
  unfolding project_lattice_point vec2.sel
  using rho_pos [OF assms] by (intro norm_scaled_unit) simp_all

lemma geodesic_components:
  assumes r: "r = sqrt ((vec2_x q)\<^sup>2 + (vec2_y q)\<^sup>2)"
  shows "geodesic q = vec3 (vec2_x q + vec2_x q * (1 / r) * ((1 / r - r) / 2))
                           (vec2_y q + vec2_y q * (1 / r) * ((1 / r - r) / 2))
                           ((1 / r - r) / 2)"
  by (simp add: geodesic_def Let_def vec2_add_def vec2_mul_def normalize_vec2_def length_vec2_def r
        power2_eq_square)

lemma geodesic_centre_norm:
  assumes r: "r = sqrt ((vec2_x q)\<^sup>2 + (vec2_y q)\<^sup>2)" and nz: "r \<noteq> 0"
  shows "(vec3_x (geodesic q))\<^sup>2 + (vec3_y (geodesic q))\<^sup>2 = ((1 / r + r) / 2)\<^sup>2"
proof -
  define k where "k = 1 + (1 / r) * ((1 / r - r) / 2)"
  have r2: "(vec2_x q)\<^sup>2 + (vec2_y q)\<^sup>2 = r\<^sup>2"
    unfolding r by simp
  have "(vec3_x (geodesic q))\<^sup>2 + (vec3_y (geodesic q))\<^sup>2
          = (vec2_x q * k)\<^sup>2 + (vec2_y q * k)\<^sup>2"
    by (simp add: geodesic_components [OF r] k_def algebra_simps)
  also have "\<dots> = ((vec2_x q)\<^sup>2 + (vec2_y q)\<^sup>2) * k\<^sup>2"
    by (simp add: algebra_simps)
  also have "\<dots> = (r * k)\<^sup>2"
    by (simp add: r2 power_mult_distrib)
  also have "r * k = (1 / r + r) / 2"
    using nz by (simp add: k_def field_simps)
  finally show ?thesis .
qed

lemma geodesic_orthogonal:
  assumes "sqrt ((vec2_x q)\<^sup>2 + (vec2_y q)\<^sup>2) \<noteq> 0"
  shows "(vec3_x (geodesic q))\<^sup>2 + (vec3_y (geodesic q))\<^sup>2 = 1 + (vec3_z (geodesic q))\<^sup>2"
proof -
  define r where "r = sqrt ((vec2_x q)\<^sup>2 + (vec2_y q)\<^sup>2)"
  have nz: "r \<noteq> 0" using assms by (simp add: r_def)
  have z: "vec3_z (geodesic q) = (1 / r - r) / 2"
    by (simp add: geodesic_components [OF r_def])
  have "((1 / r + r) / 2)\<^sup>2 = 1 + ((1 / r - r) / 2)\<^sup>2"
    using nz by (simp add: power2_eq_square field_simps)
  then show ?thesis
    by (simp add: geodesic_centre_norm [OF r_def nz] z)
qed

lemma origin_outside_geodesic:
  assumes "0 < sqrt ((vec2_x q)\<^sup>2 + (vec2_y q)\<^sup>2)"
  shows "vec3_z (geodesic q) < sqrt ((vec3_x (geodesic q))\<^sup>2 + (vec3_y (geodesic q))\<^sup>2)"
proof -
  define r where "r = sqrt ((vec2_x q)\<^sup>2 + (vec2_y q)\<^sup>2)"
  have pos: "0 < r" using assms by (simp add: r_def)
  then have nz: "r \<noteq> 0" by simp
  have z: "vec3_z (geodesic q) = (1 / r - r) / 2"
    by (simp add: geodesic_components [OF r_def])
  have "0 < 1 / r" using pos by simp
  then have half: "0 \<le> (1 / r + r) / 2" using pos by simp
  have "sqrt ((vec3_x (geodesic q))\<^sup>2 + (vec3_y (geodesic q))\<^sup>2) = (1 / r + r) / 2"
    unfolding geodesic_centre_norm [OF r_def nz] using half by simp
  moreover have "(1 / r - r) / 2 < (1 / r + r) / 2"
    using pos by simp
  ultimately show ?thesis
    by (simp add: z)
qed

text \<open>The same in single precision, for a disk point whose norm is between 1/5 and 1.\<close>

lemma origin_outside_geodesic_float:
  assumes r: "r = sqrt ((vec2_x q)\<^sup>2 + (vec2_y q)\<^sup>2)" and lo: "1 / 5 \<le> r" and hi: "r < 1"
  shows "vec3_z (geodesic q) < float_distance 0 0 (geodesic q)"
proof -
  define D where "D = sqrt ((vec3_x (geodesic q))\<^sup>2 + (vec3_y (geodesic q))\<^sup>2)"
  define k where "k = 1 / r"
  have pos: "0 < r" using lo by simp
  then have nz: "r \<noteq> 0" by simp
  have z: "vec3_z (geodesic q) = k / 2 - r / 2"
    by (simp add: geodesic_components [OF r] k_def diff_divide_distrib)
  have k: "1 \<le> k" "k \<le> 5"
    unfolding k_def using pos lo hi by (simp_all add: field_simps)
  then have half: "0 \<le> (k + r) / 2" using pos by simp
  have "D = sqrt (((k + r) / 2)\<^sup>2)"
    unfolding D_def k_def by (simp only: geodesic_centre_norm [OF r nz])
  then have D: "D = k / 2 + r / 2"
    using half by (simp add: add_divide_distrib)
  have "3 / 5 \<le> D"
    unfolding D using k lo by linarith
  moreover have "D \<le> 3"
    unfolding D using k hi by linarith
  ultimately have "D - 1 / 1000 \<le> float_distance 0 0 (geodesic q)"
    unfolding float_distance_def using D_def by (intro origin_float_distance)
  moreover have "k / 2 - r / 2 < D - 1 / 1000"
    unfolding D using lo by linarith
  ultimately show ?thesis
    unfolding z by linarith
qed

section \<open>The state after each step\<close>

lemma increaseResolution_fields:
  "width (increaseResolution this d) = width this + d"
  "height (increaseResolution this d) = height this + d"
  "tex_width (increaseResolution this d) = width this + d"
  "tex_height (increaseResolution this d) = height this + d"
  "circles (increaseResolution this d) = circles this"
  by (simp_all add: increaseResolution_def create_def Let_def)

lemma increaseResolution_image:
  "tex_image (increaseResolution this d) = RenderToTexture this (width this + d) (height this + d)"
proof -
  have "tex_image (increaseResolution this d)
          = RenderToTexture (this\<lparr>width := width this + d, height := height this + d\<rparr>)
              (width this + d) (height this + d)"
    by (simp add: increaseResolution_def create_def Let_def)
  also have "\<dots> = RenderToTexture this (width this + d) (height this + d)"
    by (rule RenderToTexture_circles) simp
  finally show ?thesis .
qed

lemma ctor_fields:
  "width (PoincareTexture_ctor w h) = w"
  "height (PoincareTexture_ctor w h) = h"
  "tex_width (PoincareTexture_ctor w h) = w"
  "tex_height (PoincareTexture_ctor w h) = h"
  by (simp_all add: PoincareTexture_ctor_def PoincareTexture_init_def create_def Let_def
        math_def calcC_def calcP_def calcH_def)

lemma math_vectors:
  "hyperbolicPoints (math this) = hyperbolicPoints this @ lattice"
  "poincarePoints (math this) =
     poincarePoints this @ map project (hyperbolicPoints this @ lattice)"
  "circles (math this) =
     circles this @ map geodesic (poincarePoints this @ map project (hyperbolicPoints this @ lattice))"
  by (simp_all add: math_def calcC_def calcP_def calcH_def calcH_i_eq calcP_loop_eq calcC_loop_eq)

lemma ctor_vectors:
  "hyperbolicPoints (PoincareTexture_ctor w h) = lattice"
  "poincarePoints (PoincareTexture_ctor w h) = map project lattice"
  "circles (PoincareTexture_ctor w h) = map geodesic (map project lattice)"
  by (simp_all add: PoincareTexture_ctor_def create_def Let_def math_vectors PoincareTexture_init_def)

lemma ctor_image:
  "tex_image (PoincareTexture_ctor w h) = RenderToTexture (PoincareTexture_ctor w h) w h"
proof -
  have "tex_image (PoincareTexture_ctor w h) = RenderToTexture (math (PoincareTexture_init w h)) w h"
    by (simp add: PoincareTexture_ctor_def create_def Let_def)
  also have "\<dots> = RenderToTexture (PoincareTexture_ctor w h) w h"
    by (rule RenderToTexture_circles) (simp add: PoincareTexture_ctor_def create_def Let_def)
  finally show ?thesis .
qed

lemma ctor_point_norm:
  assumes "q \<in> set (poincarePoints (PoincareTexture_ctor w h))"
  obtains d where "0 < d" and "sqrt ((vec2_x q)\<^sup>2 + (vec2_y q)\<^sup>2) = rho d" and "1 / 2 \<le> d"
proof -
  from assms obtain p where p: "p \<in> set lattice" and q: "q = project p"
    by (auto simp add: ctor_vectors)
  from p obtain i d where "p = lattice_point i d" and "1 / 2 \<le> d"
    by (rule lattice_cases)
  then have "0 < d" and "sqrt ((vec2_x q)\<^sup>2 + (vec2_y q)\<^sup>2) = rho d" and "1 / 2 \<le> d"
    by (simp_all add: q norm_project_lattice_point)
  then show thesis by (rule that)
qed

lemma increaseResolution_ctor:
  "increaseResolution (PoincareTexture_ctor w h) d = PoincareTexture_ctor (w + d) (h + d)"
proof -
  have m: "math (PoincareTexture_init a b) =
      \<lparr>tex_width = 0, tex_height = 0, tex_image = [],
       width = a, height = b, points = [], centres = [],
       hyperbolicPoints = lattice, poincarePoints = map project lattice,
       circles = map geodesic (map project lattice)\<rparr>" for a b
    by (simp add: math_def calcC_def calcP_def calcH_def PoincareTexture_init_def
          calcH_i_eq calcP_loop_eq calcC_loop_eq)
  show ?thesis
    by (simp add: increaseResolution_def PoincareTexture_ctor_def create_def Let_def m
          RenderToTexture_eq pixel_eq)
qed

lemma RenderToTexture_xC_iterations_eq: "RenderToTexture_xC_iterations W xC = nat (W - xC)"
proof (induction W xC rule: RenderToTexture_xC_iterations.induct)
  case (1 W xC)
  show ?case
  proof (cases "xC < W")
    case True
    with "1" show ?thesis
      by (subst RenderToTexture_xC_iterations.simps) (simp add: Suc_nat_eq_nat_zadd1)
  next
    case False
    then show ?thesis
      by (subst RenderToTexture_xC_iterations.simps) simp
  qed
qed

lemma RenderToTexture_yC_iterations_eq: "RenderToTexture_yC_iterations H yC = nat (H - yC)"
proof (induction H yC rule: RenderToTexture_yC_iterations.induct)
  case (1 H yC)
  show ?case
  proof (cases "yC < H")
    case True
    with "1" show ?thesis
      by (subst RenderToTexture_yC_iterations.simps) (simp add: Suc_nat_eq_nat_zadd1)
  next
    case False
    then show ?thesis
      by (subst RenderToTexture_yC_iterations.simps) simp
  qed
qed

text \<open>Each pass of the inner loop appends one pixel.\<close>

lemma RenderToTexture_xC_length:
  "length (RenderToTexture_xC this W yC xC td) = length td + RenderToTexture_xC_iterations W xC"
  by (simp add: RenderToTexture_xC_eq RenderToTexture_xC_iterations_eq)

section \<open>The rasteriser\<close>

text \<open>
  C1, in the arithmetic of the machine. For a pixel \<open>(xc, yc)\<close> of a \<open>W\<close> by \<open>H\<close> render, the
  grid has \<open>W * H\<close> entries and the entry at the row-major index \<open>yc * W + xc\<close> is the colour
  of the rule at the normalised coordinates \<open>xc / W * 2 - 1\<close> and \<open>yc / W * 2 - 1\<close>, both
  divided by the width and computed in single precision: black when the double-precision
  norm exceeds 1, else yellow when the number of circles whose centre is, in single
  precision, within their radius of the point is even, else blue.
\<close>

theorem RenderToTexture_pixels:
  assumes "0 \<le> xc" and "xc < W" and "0 \<le> yc" and "yc < H"
  shows "int (length (RenderToTexture this W H)) = W * H \<and>
         RenderToTexture this W H ! nat (yc * W + xc) =
           float_colour (circles this) (float_coordinate xc W) (float_coordinate yc W)"
proof -
  have "0 \<le> W" and "0 \<le> H"
    using assms by simp_all
  then have "int (length (RenderToTexture this W H)) = W * H"
    by (rule RenderToTexture_length)
  moreover have "RenderToTexture this W H ! nat (yc * W + xc) = pixel this W xc yc"
    using assms by (rule RenderToTexture_nth)
  ultimately show ?thesis
    by (simp add: pixel_eq)
qed

theorem RenderToTexture_pixels_witness:
  "(0::int) \<le> 1 \<and> (1::int) < 2 \<and>
   int (length (RenderToTexture ((PoincareTexture_init 2 2)\<lparr>circles := [vec3 0 0 1]\<rparr>) 2 2)) = 2 * 2 \<and>
   RenderToTexture ((PoincareTexture_init 2 2)\<lparr>circles := [vec3 0 0 1]\<rparr>) 2 2 ! nat (1 * 2 + 1)
     = vec4 0 0 1 1"
  using RenderToTexture_pixels [of 1 2 1 2 "(PoincareTexture_init 2 2)\<lparr>circles := [vec3 0 0 1]\<rparr>"]
  by (simp add: float_colour_def float_containment_count_def float_distance_def float_norm_def
        float_coordinate_1_2 round32_0 round64_0)

text \<open>
  The claim C1 as written, with the coordinates and the norm in exact arithmetic, fails
  at the pixel \<open>(60, 30)\<close> of the 300 by 300 texture: \<open>(-3/5, -4/5)\<close> has norm 1, which is
  not outside the unit disk, and the grid holds black there, the single-precision
  coordinates being \<open>-10066330 / 2^24\<close> and \<open>-13421773 / 2^24\<close>.
\<close>

theorem RenderToTexture_exact_counterexample:
  "RenderToTexture star_texture 300 300 ! nat (30 * 300 + 60) = vec4 0 0 0 1 \<and>
   \<not> 1 < sqrt ((real_of_int 60 / real_of_int 300 * 2 - 1)\<^sup>2
              + (real_of_int 30 / real_of_int 300 * 2 - 1)\<^sup>2) \<and>
   synthesizer_colour (circles star_texture)
     (real_of_int 60 / real_of_int 300 * 2 - 1) (real_of_int 30 / real_of_int 300 * 2 - 1)
     \<noteq> vec4 0 0 0 1"
proof -
  have "RenderToTexture star_texture 300 300 ! nat (30 * 300 + 60) = pixel star_texture 300 60 30"
    by (rule RenderToTexture_nth) simp_all
  also have "\<dots> = vec4 0 0 0 1"
    using float_norm_60_30
    by (simp add: pixel_eq float_colour_def float_coordinate_60_300 float_coordinate_30_300)
  finally have black: "RenderToTexture star_texture 300 300 ! nat (30 * 300 + 60) = vec4 0 0 0 1" .
  have "(real_of_int 60 / real_of_int 300 * 2 - 1)\<^sup>2
          + (real_of_int 30 / real_of_int 300 * 2 - 1)\<^sup>2 = (1::real)"
    by (simp add: power2_eq_square)
  then have norm: "sqrt ((real_of_int 60 / real_of_int 300 * 2 - 1)\<^sup>2
          + (real_of_int 30 / real_of_int 300 * 2 - 1)\<^sup>2) = 1"
    by (simp only: real_sqrt_one)
  show ?thesis
    unfolding synthesizer_colour_def norm using black by simp
qed

text \<open>
  C10, as the source has it. When the width or the height is zero or negative,
  \<open>RenderToTexture\<close> returns the empty grid: the outer loop runs as many times as the
  height counts (not at all when the height is not positive), each run of the inner loop
  makes as many passes as the width counts (none when the width is not positive), and
  one of the two numbers is zero. Such dimensions are reachable: \<open>increaseResolution\<close>
  adds its signed argument to both dimensions without clamping or rejecting the result.
\<close>

theorem RenderToTexture_nonpositive:
  assumes "textureWidth \<le> 0 \<or> textureHeight \<le> 0"
  shows "RenderToTexture this textureWidth textureHeight = [] \<and>
         length (RenderToTexture this textureWidth textureHeight) = 0 \<and>
         RenderToTexture_yC_iterations textureHeight 0 = nat textureHeight \<and>
         RenderToTexture_xC_iterations textureWidth 0 = nat textureWidth \<and>
         RenderToTexture_yC_iterations textureHeight 0 * RenderToTexture_xC_iterations textureWidth 0 = 0 \<and>
         width (increaseResolution this increaseBy) = width this + increaseBy \<and>
         height (increaseResolution this increaseBy) = height this + increaseBy"
  using assms
  by (auto simp add: RenderToTexture_empty increaseResolution_fields
        RenderToTexture_yC_iterations_eq RenderToTexture_xC_iterations_eq)

theorem RenderToTexture_nonpositive_witness:
  "(width (increaseResolution (increaseResolution (increaseResolution star_texture (- 100)) (- 100)) (- 100)) \<le> 0
    \<or> height (increaseResolution (increaseResolution (increaseResolution star_texture (- 100)) (- 100)) (- 100)) \<le> 0) \<and>
   RenderToTexture (increaseResolution (increaseResolution star_texture (- 100)) (- 100))
     (width (increaseResolution (increaseResolution (increaseResolution star_texture (- 100)) (- 100)) (- 100)))
     (height (increaseResolution (increaseResolution (increaseResolution star_texture (- 100)) (- 100)) (- 100)))
     = [] \<and>
   RenderToTexture_yC_iterations
     (height (increaseResolution (increaseResolution (increaseResolution star_texture (- 100)) (- 100)) (- 100))) 0
     = 0"
  using RenderToTexture_nonpositive
    [of "width (increaseResolution (increaseResolution (increaseResolution star_texture (- 100)) (- 100)) (- 100))"
        "height (increaseResolution (increaseResolution (increaseResolution star_texture (- 100)) (- 100)) (- 100))"
        "increaseResolution (increaseResolution star_texture (- 100)) (- 100)" "- 100"]
  by (simp add: increaseResolution_fields ctor_fields star_texture_def)

text \<open>
  The claim C10 as written, that both loops execute zero iterations, fails for a texture
  of width 0 and height 3: the grid is empty, yet the outer loop runs three times, each
  time with no pass of the inner loop.
\<close>

theorem RenderToTexture_outer_loop_counterexample:
  "RenderToTexture (PoincareTexture_ctor 0 3) 0 3 = [] \<and>
   RenderToTexture_yC_iterations 3 0 = 3 \<and>
   RenderToTexture_xC_iterations 0 0 = 0"
  by (simp add: RenderToTexture_empty RenderToTexture_yC_iterations_eq
        RenderToTexture_xC_iterations_eq)

section \<open>The disk projector\<close>

text \<open>
  C4. \<open>calcP\<close> appends to \<open>poincarePoints\<close> one point per element of \<open>hyperbolicPoints\<close>, in
  the same order, the point \<open>(x, y, z)\<close> giving \<open>(x / (z + 1), y / (z + 1))\<close>. (At \<open>z = -1\<close>
  the quotient is HOL's \<open>a / 0 = 0\<close>, where the source divides a float by zero.)
\<close>

theorem calcP_projects:
  "poincarePoints (calcP this) =
     poincarePoints this @
       map (\<lambda>p. vec2 (vec3_x p / (vec3_z p + 1)) (vec3_y p / (vec3_z p + 1))) (hyperbolicPoints this) \<and>
   length (poincarePoints (calcP this)) =
     length (poincarePoints this) + length (hyperbolicPoints this) \<and>
   hyperbolicPoints (calcP this) = hyperbolicPoints this"
proof -
  have "project = (\<lambda>p. vec2 (vec3_x p / (vec3_z p + 1)) (vec3_y p / (vec3_z p + 1)))"
    by (rule ext) (simp add: project_def)
  then show ?thesis
    by (simp add: calcP_def calcP_loop_eq)
qed

section \<open>The lattice generator\<close>

text \<open>
  C2. \<open>calcH\<close> appends exactly 54 points to \<open>hyperbolicPoints\<close>, direction-major and
  distance-minor: for each \<open>i\<close> from 0 to 8 and then each \<open>d\<close> in 0.5, 1.5, 2.5, 3.5, 4.5,
  5.5 the point \<open>(0,0,1) cosh d + ivv sinh d\<close> with \<open>ivv = (0,0,1) sinh d + iv cosh d\<close> and
  \<open>iv\<close> the unit vector at \<open>i\<close> times 40 degrees. The constructor starts from the empty
  vector, so its lattice is these 54 points.
\<close>

theorem calcH_lattice:
  "hyperbolicPoints (calcH this) =
     hyperbolicPoints this @
       concat (map (\<lambda>i. map (lattice_point i) [1 / 2, 3 / 2, 5 / 2, 7 / 2, 9 / 2, 11 / 2])
                 [0, 1, 2, 3, 4, 5, 6, 7, 8]) \<and>
   length (hyperbolicPoints (calcH this)) = length (hyperbolicPoints this) + 54 \<and>
   hyperbolicPoints (PoincareTexture_ctor w h) = lattice \<and>
   length (hyperbolicPoints (PoincareTexture_ctor w h)) = 54"
proof -
  have "hyperbolicPoints (calcH this) = hyperbolicPoints this @ lattice"
    by (simp add: calcH_def calcH_i_eq)
  moreover have "lattice =
       concat (map (\<lambda>i. map (lattice_point i) [1 / 2, 3 / 2, 5 / 2, 7 / 2, 9 / 2, 11 / 2])
                 [0, 1, 2, 3, 4, 5, 6, 7, 8])"
    by (simp only: lattice_def distances_def)
  ultimately show ?thesis
    using length_lattice by (simp add: ctor_vectors)
qed

text \<open>
  C3, at the first point the generator produces (direction 0, distance 0.5): its \<open>z\<close> is
  at least \<open>cosh 0.5\<close>, but \<open>x\<^sup>2 + y\<^sup>2\<close> falls short of \<open>z\<^sup>2 - 1\<close> by \<open>2 cosh 0.5 sinh\<^sup>2 0.5\<close>,
  which is more than one half: the point is not on the hyperboloid.
\<close>

theorem first_lattice_point_off_hyperboloid:
  "hyperbolicPoints star_texture ! 0
     = vec3 (cosh (1 / 2) * sinh (1 / 2)) 0 (cosh (1 / 2) + sinh (1 / 2) * sinh (1 / 2)) \<and>
   (vec3_x (hyperbolicPoints star_texture ! 0))\<^sup>2 + (vec3_y (hyperbolicPoints star_texture ! 0))\<^sup>2
     - ((vec3_z (hyperbolicPoints star_texture ! 0))\<^sup>2 - 1) = - 2 * cosh (1 / 2) * (sinh (1 / 2))\<^sup>2 \<and>
   (vec3_x (hyperbolicPoints star_texture ! 0))\<^sup>2 + (vec3_y (hyperbolicPoints star_texture ! 0))\<^sup>2
     - ((vec3_z (hyperbolicPoints star_texture ! 0))\<^sup>2 - 1) \<le> - 1 / 2 \<and>
   cosh (1 / 2) \<le> vec3_z (hyperbolicPoints star_texture ! 0)"
proof -
  have first: "hyperbolicPoints star_texture ! 0 = lattice_point 0 (1 / 2)"
    by (simp add: star_texture_def ctor_vectors lattice_def distances_def)
  have comps: "lattice_point 0 (1 / 2)
      = vec3 (cosh (1 / 2) * sinh (1 / 2)) 0 (cosh (1 / 2) + sinh (1 / 2) * sinh (1 / 2))"
    by (simp add: lattice_point_def)
  have "cosh (1 / 2) \<le> vec3_z (lattice_point 0 (1 / 2))"
    by (rule lattice_point_z_ge) simp
  moreover have "(vec3_x (lattice_point 0 (1 / 2)))\<^sup>2 + (vec3_y (lattice_point 0 (1 / 2)))\<^sup>2
      - ((vec3_z (lattice_point 0 (1 / 2)))\<^sup>2 - 1) = - 2 * cosh (1 / 2) * (sinh (1 / 2))\<^sup>2"
    by (rule lattice_point_defect)
  ultimately show ?thesis
    unfolding first using defect_first by (simp add: comps)
qed

section \<open>The projected points\<close>

text \<open>
  C5. Every point of \<open>poincarePoints\<close> after construction, the projection of a lattice
  point, has Euclidean norm strictly below 1.
\<close>

theorem poincarePoints_in_open_disk:
  assumes "q \<in> set (poincarePoints (PoincareTexture_ctor w h))"
  shows "sqrt ((vec2_x q)\<^sup>2 + (vec2_y q)\<^sup>2) < 1"
proof -
  from assms obtain d where "sqrt ((vec2_x q)\<^sup>2 + (vec2_y q)\<^sup>2) = rho d"
    by (rule ctor_point_norm)
  then show ?thesis
    by (simp add: rho_less_1)
qed

theorem poincarePoints_in_open_disk_witness:
  "project (lattice_point 0 (1 / 2)) \<in> set (poincarePoints (PoincareTexture_ctor 300 300)) \<and>
   sqrt ((vec2_x (project (lattice_point 0 (1 / 2))))\<^sup>2 + (vec2_y (project (lattice_point 0 (1 / 2))))\<^sup>2) < 1"
proof -
  have mem: "project (lattice_point 0 (1 / 2)) \<in> set (poincarePoints (PoincareTexture_ctor 300 300))"
    by (simp add: ctor_vectors lattice_def distances_def)
  show ?thesis
    using mem poincarePoints_in_open_disk [OF mem] by simp
qed

section \<open>The geodesic builder\<close>

text \<open>
  C6. For disk points of non-zero norm \<open>r\<close>, \<open>calcC\<close> appends to \<open>circles\<close> one circle per
  element of \<open>poincarePoints\<close>, in the same order: with \<open>g = (1/r - r)/2\<close>, the centre
  \<open>q + normalize(q) g\<close> and, as third component, \<open>g\<close> itself, no absolute value taken.
  (At \<open>r = 0\<close> the source divides by zero.)
\<close>

theorem calcC_builds:
  assumes "\<forall>q \<in> set (poincarePoints this). sqrt ((vec2_x q)\<^sup>2 + (vec2_y q)\<^sup>2) \<noteq> 0"
  shows "circles (calcC this) = circles this @ map geodesic (poincarePoints this) \<and>
         length (circles (calcC this)) = length (circles this) + length (poincarePoints this) \<and>
         poincarePoints (calcC this) = poincarePoints this"
proof -
  have "circles (calcC this) = calcC_loop (poincarePoints this) (circles this)"
    by (simp add: calcC_def)
  also have "\<dots> = circles this @ map geodesic (poincarePoints this)"
    by (rule calcC_loop_eq)
  finally have built: "circles (calcC this) = circles this @ map geodesic (poincarePoints this)" .
  moreover have "poincarePoints (calcC this) = poincarePoints this"
    by (simp add: calcC_def)
  ultimately show ?thesis
    by simp
qed

theorem calcC_builds_witness:
  "sqrt ((1 / 2)\<^sup>2 + 0\<^sup>2) \<noteq> (0::real) \<and>
   circles (calcC ((PoincareTexture_init 1 1)\<lparr>poincarePoints := [vec2 (1 / 2) 0]\<rparr>))
     = [vec3 (5 / 4) 0 (3 / 4)]"
proof -
  have r: "sqrt ((1 / 2)\<^sup>2 + 0\<^sup>2) = (1 / 2 :: real)"
    by (simp add: real_sqrt_divide)
  have g: "geodesic (vec2 (1 / 2) 0) = vec3 (5 / 4) 0 (3 / 4)"
    using r by (simp add: geodesic_components [of "1 / 2"])
  show ?thesis
    using calcC_builds [of "(PoincareTexture_init 1 1)\<lparr>poincarePoints := [vec2 (1 / 2) 0]\<rparr>"] r g
    by (simp add: PoincareTexture_init_def)
qed

text \<open>
  C7. Every circle of \<open>circles\<close> after construction is orthogonal to the unit circle:
  the squared norm of its centre is one plus the square of its radius.
\<close>

theorem circles_orthogonal:
  assumes "c \<in> set (circles (PoincareTexture_ctor w h))"
  shows "(vec3_x c)\<^sup>2 + (vec3_y c)\<^sup>2 = 1 + (vec3_z c)\<^sup>2"
proof -
  from assms obtain q where q: "q \<in> set (poincarePoints (PoincareTexture_ctor w h))"
    and c: "c = geodesic q"
    by (auto simp add: ctor_vectors)
  from q obtain d where "0 < d" and "sqrt ((vec2_x q)\<^sup>2 + (vec2_y q)\<^sup>2) = rho d"
    by (rule ctor_point_norm)
  then have "sqrt ((vec2_x q)\<^sup>2 + (vec2_y q)\<^sup>2) \<noteq> 0"
    using rho_pos [of d] by simp
  then show ?thesis
    unfolding c by (rule geodesic_orthogonal)
qed

theorem circles_orthogonal_witness:
  "geodesic (project (lattice_point 0 (1 / 2))) \<in> set (circles (PoincareTexture_ctor 300 300)) \<and>
   (vec3_x (geodesic (project (lattice_point 0 (1 / 2)))))\<^sup>2
     + (vec3_y (geodesic (project (lattice_point 0 (1 / 2)))))\<^sup>2
     = 1 + (vec3_z (geodesic (project (lattice_point 0 (1 / 2)))))\<^sup>2"
proof -
  have mem: "geodesic (project (lattice_point 0 (1 / 2))) \<in> set (circles (PoincareTexture_ctor 300 300))"
    by (simp add: ctor_vectors lattice_def distances_def)
  show ?thesis
    using mem circles_orthogonal [OF mem] by simp
qed

section \<open>The centre pixel of the 300 by 300 texture\<close>

lemma ctor_count_origin: "countCircles (PoincareTexture_ctor w h) (vec2 0 0) = 0"
proof -
  have "\<not> float_distance 0 0 c \<le> vec3_z c"
    if "c \<in> set (circles (PoincareTexture_ctor w h))" for c
  proof -
    from that obtain q where q: "q \<in> set (poincarePoints (PoincareTexture_ctor w h))"
      and c: "c = geodesic q"
      by (auto simp add: ctor_vectors)
    from q obtain d where d: "sqrt ((vec2_x q)\<^sup>2 + (vec2_y q)\<^sup>2) = rho d" and half: "1 / 2 \<le> d"
      by (rule ctor_point_norm)
    have "1 / 5 \<le> rho d"
      using half by (rule rho_ge)
    moreover have "rho d < 1"
      by (rule rho_less_1)
    ultimately have "vec3_z c < float_distance 0 0 c"
      unfolding c using d [symmetric] by (intro origin_outside_geodesic_float)
    then show ?thesis by simp
  qed
  then have "float_containment_count (circles (PoincareTexture_ctor w h)) 0 0 = 0"
    unfolding float_containment_count_def by (simp add: filter_empty_conv)
  then show ?thesis
    by (simp add: countCircles_def countCircles_loop_eq)
qed

text \<open>
  C8. In the 300 by 300 texture the pixel \<open>(150, 150)\<close> has the normalised coordinates
  \<open>(0, 0)\<close>, which is not outside the unit disk and lies in none of the 54 circles; the
  grid holds the colour \<open>(1,1,0,1)\<close> at its row-major index.
\<close>

theorem centre_pixel_yellow:
  "real_of_int 150 / real_of_int 300 * 2 - 1 = (0::real) \<and>
   length (circles star_texture) = 54 \<and>
   countCircles star_texture (vec2 0 0) = 0 \<and>
   \<not> sqrt (0\<^sup>2 + 0\<^sup>2) > (1::real) \<and>
   pixel star_texture 300 150 150 = vec4 1 1 0 1 \<and>
   RenderToTexture star_texture 300 300 ! nat (150 * 300 + 150) = vec4 1 1 0 1 \<and>
   tex_image star_texture ! nat (150 * 300 + 150) = vec4 1 1 0 1"
proof -
  have count: "countCircles star_texture (vec2 0 0) = 0"
    unfolding star_texture_def by (rule ctor_count_origin)
  have len: "length (circles star_texture) = 54"
    by (simp add: star_texture_def ctor_vectors length_lattice)
  have "float_norm 0 0 = 0"
    by (simp add: float_norm_def round64_0)
  moreover have "float_containment_count (circles star_texture) 0 0 = 0"
    using count by (simp add: countCircles_def countCircles_loop_eq)
  ultimately have px: "pixel star_texture 300 150 150 = vec4 1 1 0 1"
    by (simp add: pixel_eq float_coordinate_150_300 float_colour_def)
  have "RenderToTexture star_texture 300 300 ! nat (150 * 300 + 150) = pixel star_texture 300 150 150"
    by (rule RenderToTexture_nth) simp_all
  then have grid: "RenderToTexture star_texture 300 300 ! nat (150 * 300 + 150) = vec4 1 1 0 1"
    by (simp only: px)
  have "tex_image star_texture = RenderToTexture star_texture 300 300"
    unfolding star_texture_def by (rule ctor_image)
  then have "tex_image star_texture ! nat (150 * 300 + 150) = vec4 1 1 0 1"
    by (simp only: grid)
  with count len px grid show ?thesis
    by simp
qed

section \<open>Resolution changes\<close>

text \<open>
  C9, as the source has it. After every resolution change the object is the one a fresh
  construction at the new dimensions gives: the circle set is the set built wholesale from
  the fixed lattice, and the texture is a fresh render, the same whatever the prior grid
  was. The texture's width and height are the new request, and when the new width and
  height are not negative the grid has exactly width times height pixels.
\<close>

theorem increaseResolution_replaces_grid:
  "increaseResolution (PoincareTexture_ctor w h) increaseBy
     = PoincareTexture_ctor (w + increaseBy) (h + increaseBy) \<and>
   circles (increaseResolution (PoincareTexture_ctor w h) increaseBy)
     = circles (math (PoincareTexture_init (w + increaseBy) (h + increaseBy))) \<and>
   tex_width (increaseResolution this increaseBy) = width this + increaseBy \<and>
   tex_height (increaseResolution this increaseBy) = height this + increaseBy \<and>
   tex_image (increaseResolution (this\<lparr>tex_image := prior\<rparr>) increaseBy)
     = tex_image (increaseResolution this increaseBy) \<and>
   (0 \<le> width this + increaseBy \<and> 0 \<le> height this + increaseBy \<longrightarrow>
      int (length (tex_image (increaseResolution this increaseBy)))
        = (width this + increaseBy) * (height this + increaseBy))"
proof -
  have fresh: "increaseResolution (PoincareTexture_ctor w h) increaseBy
      = PoincareTexture_ctor (w + increaseBy) (h + increaseBy)"
    by (rule increaseResolution_ctor)
  have "circles (PoincareTexture_ctor (w + increaseBy) (h + increaseBy))
      = circles (math (PoincareTexture_init (w + increaseBy) (h + increaseBy)))"
    by (simp add: PoincareTexture_ctor_def create_def Let_def)
  then have rebuilt: "circles (increaseResolution (PoincareTexture_ctor w h) increaseBy)
      = circles (math (PoincareTexture_init (w + increaseBy) (h + increaseBy)))"
    by (simp only: fresh)
  have len: "int (length (tex_image (increaseResolution this increaseBy)))
          = (width this + increaseBy) * (height this + increaseBy)"
    if "0 \<le> width this + increaseBy" and "0 \<le> height this + increaseBy"
    unfolding increaseResolution_image using that by (rule RenderToTexture_length)
  have prior: "tex_image (increaseResolution (this\<lparr>tex_image := prior\<rparr>) increaseBy)
          = tex_image (increaseResolution this increaseBy)"
  proof -
    have "tex_image (increaseResolution (this\<lparr>tex_image := prior\<rparr>) increaseBy)
            = RenderToTexture (this\<lparr>tex_image := prior\<rparr>)
                (width this + increaseBy) (height this + increaseBy)"
      by (simp add: increaseResolution_image)
    also have "\<dots> = RenderToTexture this (width this + increaseBy) (height this + increaseBy)"
      by (rule RenderToTexture_circles) simp
    finally show ?thesis
      by (simp add: increaseResolution_image)
  qed
  from fresh rebuilt prior len show ?thesis
    by (simp add: increaseResolution_fields)
qed

theorem increaseResolution_replaces_grid_witness:
  "((0::int) \<le> width star_texture + 100 \<and> 0 \<le> height star_texture + 100) \<and>
   increaseResolution (PoincareTexture_ctor 300 300) 100 = PoincareTexture_ctor 400 400 \<and>
   tex_width (increaseResolution star_texture 100) = 400 \<and>
   tex_height (increaseResolution star_texture 100) = 400 \<and>
   int (length (tex_image (increaseResolution star_texture 100))) = 400 * 400 \<and>
   tex_image (increaseResolution (star_texture\<lparr>tex_image := []\<rparr>) 100)
     = tex_image (increaseResolution star_texture 100)"
proof -
  have w: "width star_texture = 300" and h: "height star_texture = 300"
    by (simp_all add: star_texture_def ctor_fields)
  show ?thesis
    using increaseResolution_replaces_grid [of 300 300 100 star_texture "[]"]
    by (simp add: w h)
qed

text \<open>
  The claim C9 as written fails after four presses of \<open>R\<close>: the request is -100 by -100,
  and the grid handed to \<open>create\<close> is empty, not a grid of those dimensions.
\<close>

theorem increaseResolution_negative_counterexample:
  "tex_width (press_R (press_R (press_R (press_R star_texture)))) = - 100 \<and>
   tex_height (press_R (press_R (press_R (press_R star_texture)))) = - 100 \<and>
   tex_image (press_R (press_R (press_R (press_R star_texture)))) = [] \<and>
   int (length (tex_image (press_R (press_R (press_R (press_R star_texture))))))
     \<noteq> tex_width (press_R (press_R (press_R (press_R star_texture))))
         * tex_height (press_R (press_R (press_R (press_R star_texture))))"
proof -
  have w: "width star_texture = 300" and h: "height star_texture = 300"
    by (simp_all add: star_texture_def ctor_fields)
  have "tex_image (press_R (press_R (press_R (press_R star_texture)))) = []"
    unfolding press_R_def increaseResolution_image
    by (rule RenderToTexture_empty) (simp add: increaseResolution_fields w)
  then show ?thesis
    by (simp add: press_R_def increaseResolution_fields w h)
qed

end
